theory Spec2Isabelle
  imports Complex_Main "HOL-Library.Multiset" "HOL-Library.Log_Nat"
begin

section \<open>Values of the host language\<close>

text \<open>
  A JavaScript number is a binary64 datum: a finite value, \<open>NaN\<close> or one of the two
  infinities. A finite number is kept as the rational it denotes (the two zeros are not
  told apart: nothing here depends on the sign of a zero).
\<close>

datatype jsnumber = Finite rat | NaN | PosInfinity | NegInfinity

text \<open>
  Rounding to binary64, to the nearest datum and to the even one on a tie. For a
  positive \<open>a\<close>, \<open>ilog2 a\<close> is the exponent \<open>e\<close> with \<open>2^e \<le> a < 2^(e+1)\<close>; the data
  of that binade are the multiples of \<open>2^(e-52)\<close>, and below \<open>2^-1022\<close> (the
  subnormal numbers) the multiples of \<open>2^-1074\<close>. \<open>round_binary64\<close> is the rounded
  value before overflow is looked at; \<open>binary64\<close> is the number a decimal literal or an
  exact result denotes, an infinity from \<open>2^1024\<close> on.
\<close>

definition ilog2 :: "rat \<Rightarrow> int" where
  "ilog2 a =
     (if 1 \<le> a then int (floorlog 2 (nat \<lfloor>a\<rfloor>)) - 1
      else - int (floorlog 2 (nat (\<lceil>1 / a\<rceil> - 1))))"

definition round_half_even :: "rat \<Rightarrow> int" where
  "round_half_even r =
     (let f = \<lfloor>r\<rfloor>; d = r - of_int f
      in if d < 1 / 2 then f else if 1 / 2 < d then f + 1 else if even f then f else f + 1)"

definition round_binary64 :: "rat \<Rightarrow> rat" where
  "round_binary64 r =
     (if r = 0 then 0
      else let a = \<bar>r\<bar>; e = max (ilog2 a) (- 1022); ulp = 2 powi (e - 52)
           in sgn r * (of_int (round_half_even (a / ulp)) * ulp))"

definition binary64 :: "rat \<Rightarrow> jsnumber" where
  "binary64 r =
     (let v = round_binary64 r
      in if 2 ^ 1024 \<le> \<bar>v\<bar> then (if 0 < r then PosInfinity else NegInfinity) else Finite v)"

text \<open>
  The bare items of the structured-headers library: numbers, strings and booleans are
  primitives; tokens, byte sequences, dates and display strings are objects. An object
  is kept as its reference (what \<open>===\<close> compares) and the string its \<open>toString()\<close>
  method yields.
\<close>

datatype BareItem =
    Number jsnumber
  | String string
  | Boolean bool
  | Object nat string

text \<open>
  \<open>Number.prototype.toString\<close> belongs to the host and is a parameter of every
  function below: nothing proved here depends on the digits it prints.
\<close>

record builtins =
  Number_toString :: "jsnumber \<Rightarrow> string"

text \<open>
  The closed examples below are stated at a host of which nothing is known: they hold
  because the conversion of the host does not decide them.
\<close>

definition unspecified_host :: builtins where
  "unspecified_host = \<lparr>Number_toString = undefined\<rparr>"

fun toString :: "builtins \<Rightarrow> BareItem \<Rightarrow> string" where
  "toString rt (Number n) = Number_toString rt n"
| "toString rt (String s) = s"
| "toString rt (Boolean b) = (if b then ''true'' else ''false'')"
| "toString rt (Object r s) = s"

fun number_equals :: "jsnumber \<Rightarrow> jsnumber \<Rightarrow> bool" where
  "number_equals (Finite x) (Finite y) = (x = y)"
| "number_equals PosInfinity PosInfinity = True"
| "number_equals NegInfinity NegInfinity = True"
| "number_equals _ _ = False"

text \<open>\<open>a === b\<close> on two values; \<open>None\<close> is \<open>undefined\<close>.\<close>

fun strict_equals :: "BareItem option \<Rightarrow> BareItem option \<Rightarrow> bool" where
  "strict_equals None None = True"
| "strict_equals (Some (Number x)) (Some (Number y)) = number_equals x y"
| "strict_equals (Some (String s)) (Some (String t)) = (s = t)"
| "strict_equals (Some (Boolean a)) (Some (Boolean b)) = (a = b)"
| "strict_equals (Some (Object r s)) (Some (Object r' s')) = (r = r')"
| "strict_equals _ _ = False"

subsection \<open>Strings read as numbers\<close>

text \<open>
  \<open>Number(s)\<close> on a string, the operation StringToNumber of the language: white space
  is trimmed at both ends; the empty string is 0; then comes a binary, octal or
  hexadecimal integer (\<open>0b\<close>, \<open>0o\<close>, \<open>0x\<close>, no sign), or an optional sign before
  \<open>Infinity\<close> or before a decimal literal (digits with an optional point, or a point
  and digits, and an optional exponent); anything else is \<open>NaN\<close>. The value is rounded
  to binary64, exactly, as the engines do for a literal of any length. Strings are
  sequences of code units below 256, so the white space is the seven characters of that
  range.
\<close>

definition StrWhiteSpaceChar :: "char \<Rightarrow> bool" where
  "StrWhiteSpaceChar c =
     (c \<in> set [CHR 0x09, CHR 0x0A, CHR 0x0B, CHR 0x0C, CHR 0x0D, CHR 0x20, CHR 0xA0])"

definition trim :: "string \<Rightarrow> string" where
  "trim s = rev (dropWhile StrWhiteSpaceChar (rev (dropWhile StrWhiteSpaceChar s)))"

definition digit_value :: "char \<Rightarrow> nat option" where
  "digit_value c =
     map_of (zip ''0123456789abcdefABCDEF''
       [0, 1, 2, 3, 4, 5, 6, 7, 8, 9, 10, 11, 12, 13, 14, 15, 10, 11, 12, 13, 14, 15]) c"

fun digits_value :: "nat \<Rightarrow> nat \<Rightarrow> string \<Rightarrow> nat option" where
  "digits_value base acc [] = Some acc"
| "digits_value base acc (c # cs) =
     (case digit_value c of
        None \<Rightarrow> None
      | Some d \<Rightarrow> if d < base then digits_value base (acc * base + d) cs else None)"

definition Digits :: "nat \<Rightarrow> string \<Rightarrow> nat option" where
  "Digits base s = (if s = [] then None else digits_value base 0 s)"

definition SignedInteger :: "string \<Rightarrow> int option" where
  "SignedInteger s =
     (case s of
        [] \<Rightarrow> None
      | c # d \<Rightarrow>
          if c = CHR ''+'' then map_option int (Digits 10 d)
          else if c = CHR ''-'' then map_option (\<lambda>n. - int n) (Digits 10 d)
          else map_option int (Digits 10 s))"

definition isExponentIndicator :: "char \<Rightarrow> bool" where
  "isExponentIndicator c = (c = CHR ''e'' \<or> c = CHR ''E'')"

definition StrUnsignedDecimalLiteral :: "string \<Rightarrow> rat option" where
  "StrUnsignedDecimalLiteral u =
     (let mantissa = takeWhile (\<lambda>c. \<not> isExponentIndicator c) u;
          exponentPart = dropWhile (\<lambda>c. \<not> isExponentIndicator c) u;
          intPart = takeWhile (\<lambda>c. c \<noteq> CHR ''.'') mantissa;
          fraction = dropWhile (\<lambda>c. c \<noteq> CHR ''.'') mantissa;
          m = (case fraction of
                 [] \<Rightarrow> map_option of_nat (Digits 10 intPart)
               | _ # fracPart \<Rightarrow>
                   if intPart = [] \<and> fracPart = [] then None
                   else (case (digits_value 10 0 intPart, digits_value 10 0 fracPart) of
                           (Some i, Some f) \<Rightarrow> Some (of_nat i + of_nat f / 10 ^ length fracPart)
                         | _ \<Rightarrow> None));
          e = (case exponentPart of [] \<Rightarrow> Some 0 | _ # digits \<Rightarrow> SignedInteger digits)
      in case (m, e) of
           (Some mv, Some ev) \<Rightarrow> Some (mv * 10 powi ev)
         | _ \<Rightarrow> None)"

definition radix_prefix :: "string \<Rightarrow> nat option" where
  "radix_prefix s =
     (case s of
        c0 # c1 # _ \<Rightarrow>
          if c0 = CHR ''0'' then
            (if c1 = CHR ''b'' \<or> c1 = CHR ''B'' then Some 2
             else if c1 = CHR ''o'' \<or> c1 = CHR ''O'' then Some 8
             else if c1 = CHR ''x'' \<or> c1 = CHR ''X'' then Some 16
             else None)
          else None
      | _ \<Rightarrow> None)"

definition StringToNumber :: "string \<Rightarrow> jsnumber" where
  "StringToNumber str =
     (let s = trim str
      in if s = [] then Finite 0
         else case radix_prefix s of
                Some base \<Rightarrow>
                  (case Digits base (drop 2 s) of
                     None \<Rightarrow> NaN
                   | Some n \<Rightarrow> binary64 (of_nat n))
              | None \<Rightarrow>
                  (let negative = (hd s = CHR ''-'');
                       u = (if hd s = CHR ''+'' \<or> hd s = CHR ''-'' then tl s else s)
                   in if u = ''Infinity'' then (if negative then NegInfinity else PosInfinity)
                      else case StrUnsignedDecimalLiteral u of
                             None \<Rightarrow> NaN
                           | Some mv \<Rightarrow> binary64 (if negative then - mv else mv)))"

subsection \<open>Maps with insertion order\<close>

text \<open>
  A \<open>Map\<close> is an association list in insertion order; its keys are distinct
  (\<open>wf_Parameters\<close>).
\<close>

type_synonym Parameters = "(string \<times> BareItem) list"

definition wf_Parameters :: "Parameters \<Rightarrow> bool" where
  "wf_Parameters m = distinct (map fst m)"

definition Map_keys :: "Parameters \<Rightarrow> string list" where
  "Map_keys m = map fst m"

definition Map_get :: "Parameters \<Rightarrow> string \<Rightarrow> BareItem option" where
  "Map_get m k = map_of m k"

definition Map_has :: "Parameters \<Rightarrow> string \<Rightarrow> bool" where
  "Map_has m k = (k \<in> set (map fst m))"

definition Map_size :: "Parameters \<Rightarrow> int" where
  "Map_size m = int (length m)"

fun Map_set :: "Parameters \<Rightarrow> string \<Rightarrow> BareItem \<Rightarrow> Parameters" where
  "Map_set [] k v = [(k, v)]"
| "Map_set (p # ps) k v = (if fst p = k then (k, v) # ps else p # Map_set ps k v)"

type_synonym Item = "BareItem \<times> Parameters"

section \<open>The splitter\<close>

text \<open>
  The character class of \<open>TOKEN\<close>: \<open>[-a-zA-Z0-9!#$%^&*_+{}\\|'.`~]\<close>, where
  \<open>\\|\<close> is the bar.
\<close>

definition TOKEN_char :: "char \<Rightarrow> bool" where
  "TOKEN_char c =
     (c \<in> set ''abcdefghijklmnopqrstuvwxyz''
      \<or> c \<in> set ''ABCDEFGHIJKLMNOPQRSTUVWXYZ''
      \<or> c \<in> set ''0123456789''
      \<or> c \<in> set ''-!#$%^&*_+{}|.`~''
      \<or> c = CHR 0x27)"

definition TOKEN :: "string \<Rightarrow> bool" where
  "TOKEN s = (s \<noteq> [] \<and> list_all TOKEN_char s)"

text \<open>
  \<open>MEDIA_TYPE.exec\<close> with the full match dropped: the two groups of
  \<open>^(TOKEN)/(TOKEN)$\<close>. The slash is no token character, so the first group ends at
  the first slash and the second is all that follows.
\<close>

definition MEDIA_TYPE_exec :: "string \<Rightarrow> string list option" where
  "MEDIA_TYPE_exec s =
     (let t = takeWhile (\<lambda>c. c \<noteq> CHR ''/'') s;
          r = dropWhile (\<lambda>c. c \<noteq> CHR ''/'') s
      in case r of
           [] \<Rightarrow> None
         | _ # u \<Rightarrow> if TOKEN t \<and> TOKEN u then Some [t, u] else None)"

text \<open>\<open>toLowerCase\<close> on the characters a token can hold.\<close>

definition toLowerCase_char :: "char \<Rightarrow> char" where
  "toLowerCase_char c =
     (case map_of (zip ''ABCDEFGHIJKLMNOPQRSTUVWXYZ'' ''abcdefghijklmnopqrstuvwxyz'') c of
        None \<Rightarrow> c
      | Some l \<Rightarrow> l)"

definition toLowerCase :: "string \<Rightarrow> string" where
  "toLowerCase s = map toLowerCase_char s"

definition split_mediaType :: "string \<Rightarrow> string list" where
  "split_mediaType mediaType =
     (case MEDIA_TYPE_exec mediaType of
        None \<Rightarrow> []
      | Some groups \<Rightarrow> map toLowerCase groups)"

text \<open>
  \<open>const [x, y] = xs\<close>: a component the array does not have is \<open>undefined\<close>
  (\<open>None\<close>).
\<close>

fun destructure2 :: "string list \<Rightarrow> string option \<times> string option" where
  "destructure2 [] = (None, None)"
| "destructure2 [x] = (Some x, None)"
| "destructure2 (x # y # _) = (Some x, Some y)"

section \<open>The sorter\<close>

text \<open>
  The constant \<open>qNum\<close> of \<open>extractQuality\<close>:
  \<open>(typeof q === 'number') ? q : Number(q.toString())\<close>.
\<close>

definition qNum :: "builtins \<Rightarrow> BareItem \<Rightarrow> jsnumber" where
  "qNum rt q = (case q of Number n \<Rightarrow> n | _ \<Rightarrow> StringToNumber (toString rt q))"

text \<open>
  \<open>qNum * 1000\<close> is the product of two numbers: the exact product rounded to binary64.
  It is taken for a number below 1 only, so it is finite, and \<open>Math.floor\<close> gives an
  integer from 0 to 1000.
\<close>

definition extractQuality :: "builtins \<Rightarrow> BareItem option \<Rightarrow> int" where
  "extractQuality rt q =
     (case q of
        None \<Rightarrow> 1000
      | Some v \<Rightarrow>
          (case qNum rt v of
             Finite x \<Rightarrow>
               if x = 1 then 1000
               else if 0 < x \<and> x < 1 then \<lfloor>round_binary64 (x * 1000)\<rfloor>
               else 0
           | _ \<Rightarrow> 0))"

definition sortByQuality :: "builtins \<Rightarrow> BareItem option \<Rightarrow> BareItem option \<Rightarrow> int" where
  "sortByQuality rt a b = extractQuality rt b - extractQuality rt a"

definition sortByType :: "builtins \<Rightarrow> BareItem \<Rightarrow> BareItem \<Rightarrow> int" where
  "sortByType rt a b =
     (let (aType, aSubtype) = destructure2 (split_mediaType (toString rt a));
          (bType, bSubtype) = destructure2 (split_mediaType (toString rt b))
      in if aType = bType \<and> aSubtype = bSubtype then 0
         else if aType = Some ''*'' \<and> aSubtype = Some ''*'' then 1
         else if bType = Some ''*'' \<and> bSubtype = Some ''*'' then - 1
         else if aSubtype = Some ''*'' \<and> bSubtype = Some ''*'' then 0
         else if aSubtype = Some ''*'' then 1
         else if bSubtype = Some ''*'' then - 1
         else 0)"

definition countQ :: "bool \<Rightarrow> int" where
  "countQ a = (if a then 1 else 0)"

definition sortByParameters :: "Parameters \<Rightarrow> Parameters \<Rightarrow> int" where
  "sortByParameters a b =
     Map_size b - countQ (Map_has b ''q'') - Map_size a + countQ (Map_has a ''q'')"

text \<open>\<open>x || y || z\<close> on numbers: the first operand that is not zero, else the last.\<close>

definition comparator :: "builtins \<Rightarrow> Item \<Rightarrow> Item \<Rightarrow> int" where
  "comparator rt a b =
     (let byQuality = sortByQuality rt (Map_get (snd a) ''q'') (Map_get (snd b) ''q'')
      in if byQuality \<noteq> 0 then byQuality
         else let byType = sortByType rt (fst a) (fst b)
              in if byType \<noteq> 0 then byType
                 else sortByParameters (snd a) (snd b))"

subsection \<open>Arrays in a store\<close>

text \<open>
  Arrays are objects: a reference is an index into the store. \<open>slice()\<close> allocates a
  copy, \<open>Array.prototype.sort\<close> sorts the array it is called on in place and returns
  the same reference. The sorting algorithm of the host is stable; it is modelled by a
  stable insertion sort that places \<open>x\<close> before \<open>y\<close> when the comparison function
  is not positive on them.
\<close>

type_synonym ref = nat
type_synonym store = "Item list list"

fun insert_by :: "(Item \<Rightarrow> Item \<Rightarrow> int) \<Rightarrow> Item \<Rightarrow> Item list \<Rightarrow> Item list" where
  "insert_by cmp x [] = [x]"
| "insert_by cmp x (y # ys) =
     (if cmp x y \<le> 0 then x # y # ys else y # insert_by cmp x ys)"

definition sort_by :: "(Item \<Rightarrow> Item \<Rightarrow> int) \<Rightarrow> Item list \<Rightarrow> Item list" where
  "sort_by cmp xs = foldr (insert_by cmp) xs []"

definition Array_slice :: "store \<Rightarrow> ref \<Rightarrow> store \<times> ref" where
  "Array_slice h r = (h @ [h ! r], length h)"

definition Array_sort :: "(Item \<Rightarrow> Item \<Rightarrow> int) \<Rightarrow> store \<Rightarrow> ref \<Rightarrow> store \<times> ref" where
  "Array_sort cmp h r = (h[r := sort_by cmp (h ! r)], r)"

definition sort_mediaType :: "builtins \<Rightarrow> store \<Rightarrow> ref \<Rightarrow> store \<times> ref" where
  "sort_mediaType rt h types =
     (let (h1, copy) = Array_slice h types in Array_sort (comparator rt) h1 copy)"

section \<open>The matcher\<close>

datatype error = TypeError

datatype match_result = Bool bool | Mismatched Parameters

text \<open>
  The loop of \<open>contains\<close> over the keys of \<open>req\<close> that are still to visit, with the
  map \<open>misMatched\<close> built so far. Calling \<open>toString\<close> on \<open>undefined\<close> throws a
  \<open>TypeError\<close>.
\<close>

fun contains_loop ::
  "builtins \<Rightarrow> Parameters \<Rightarrow> Parameters \<Rightarrow> string list \<Rightarrow> Parameters \<Rightarrow> error + match_result"
where
  "contains_loop rt req allowed [] misMatched =
     Inr (if Map_size misMatched \<noteq> 0 then Mismatched misMatched else Bool True)"
| "contains_loop rt req allowed (key # keys) misMatched =
     (if key = ''q'' \<or> Map_has allowed key then
        (if strict_equals (Map_get req key) (Map_get allowed key) then
           contains_loop rt req allowed keys misMatched
         else
           (case Map_get req key of
              None \<Rightarrow> Inl TypeError
            | Some reqValue \<Rightarrow>
                (case Map_get allowed key of
                   None \<Rightarrow> Inl TypeError
                 | Some allowedValue \<Rightarrow>
                     if toString rt reqValue = toString rt allowedValue then
                       contains_loop rt req allowed keys misMatched
                     else
                       contains_loop rt req allowed keys (Map_set misMatched key reqValue))))
      else Inr (Bool False))"

definition contains :: "builtins \<Rightarrow> Parameters \<Rightarrow> Parameters \<Rightarrow> error + match_result" where
  "contains rt req allowed = contains_loop rt req allowed (Map_keys req) []"

definition match :: "builtins \<Rightarrow> Item \<Rightarrow> Item \<Rightarrow> error + match_result" where
  "match rt req allowed =
     (let (allowedType, allowedSubtype) = destructure2 (split_mediaType (toString rt (fst allowed)));
          (reqType, reqSubtype) = destructure2 (split_mediaType (toString rt (fst req)))
      in if (reqType = Some ''*'' \<or> allowedType = reqType)
            \<and> (reqSubtype = Some ''*'' \<or> allowedSubtype = reqSubtype)
         then contains rt (snd req) (snd allowed)
         else Inr (Bool False))"

section \<open>The example of the documentation\<close>

text \<open>
  What the parser of structured-headers returns for the header of the example of
  \<open>sort\<close>, \<open>text/html;level=3;q=0.7, text/html;q=0.7, text/plain;q=0.5, text/*;q=0.1\<close>:
  each bare item is a token object of its own, each parameter value the number its decimal
  literal denotes (3 and 0.5 are binary64 values, 0.7 and 0.1 are rounded).
\<close>

definition parsedAccept :: "Item list" where
  "parsedAccept =
     [(Object 0 ''text/html'', [(''level'', Number (Finite 3)), (''q'', Number (binary64 (7 / 10)))]),
      (Object 1 ''text/html'', [(''q'', Number (binary64 (7 / 10)))]),
      (Object 2 ''text/plain'', [(''q'', Number (Finite (1 / 2)))]),
      (Object 3 ''text/*'', [(''q'', Number (binary64 (1 / 10)))])]"

section \<open>Evaluating the splitter and the maps\<close>

lemmas split_eval = split_mediaType_def MEDIA_TYPE_exec_def TOKEN_def TOKEN_char_def
  toLowerCase_def toLowerCase_char_def Let_def

lemmas Map_eval = Map_keys_def Map_get_def Map_has_def Map_size_def

lemma split_text_html: "split_mediaType ''text/html'' = [''text'', ''html'']"
  by (simp add: split_eval)

lemma split_text_plain: "split_mediaType ''text/plain'' = [''text'', ''plain'']"
  by (simp add: split_eval)

lemma split_text_star: "split_mediaType ''text/*'' = [''text'', ''*'']"
  by (simp add: split_eval)

lemma split_star_star: "split_mediaType ''*/*'' = [''*'', ''*'']"
  by (simp add: split_eval)

lemma split_comma: "split_mediaType ''text,html'' = []"
  by (simp add: split_eval)

text \<open>The splitter yields no component or exactly two.\<close>

lemma split_shape: "split_mediaType s = [] \<or> (\<exists>t u. split_mediaType s = [t, u])"
  by (simp add: split_mediaType_def MEDIA_TYPE_exec_def Let_def split: list.splits option.splits)

text \<open>
  The two groups are what the grammar says: the string is a token, a slash and a token.
\<close>

lemma slash_no_TOKEN_char: "\<not> TOKEN_char (CHR ''/'')"
  by (simp add: TOKEN_char_def)

lemma MEDIA_TYPE_exec_grammar:
  "MEDIA_TYPE_exec s = Some [t, u] \<longleftrightarrow> s = t @ ''/'' @ u \<and> TOKEN t \<and> TOKEN u"
proof
  assume "MEDIA_TYPE_exec s = Some [t, u]"
  then obtain c where parts: "dropWhile (\<lambda>c. c \<noteq> CHR ''/'') s = c # u"
      "takeWhile (\<lambda>c. c \<noteq> CHR ''/'') s = t" "TOKEN t" "TOKEN u"
    by (auto simp add: MEDIA_TYPE_exec_def Let_def split: list.splits if_splits)
  moreover from parts have "c = CHR ''/''"
    using hd_dropWhile [of "\<lambda>c. c \<noteq> CHR ''/''" s] by auto
  ultimately show "s = t @ ''/'' @ u \<and> TOKEN t \<and> TOKEN u"
    using takeWhile_dropWhile_id [of "\<lambda>c. c \<noteq> CHR ''/''" s] by auto
next
  assume a: "s = t @ ''/'' @ u \<and> TOKEN t \<and> TOKEN u"
  then have "\<forall>c \<in> set t. c \<noteq> CHR ''/''"
    using slash_no_TOKEN_char by (auto simp add: TOKEN_def list_all_iff)
  with a have "takeWhile (\<lambda>c. c \<noteq> CHR ''/'') s = t"
      "dropWhile (\<lambda>c. c \<noteq> CHR ''/'') s = CHR ''/'' # u"
    by simp_all
  with a show "MEDIA_TYPE_exec s = Some [t, u]"
    by (simp add: MEDIA_TYPE_exec_def)
qed

section \<open>Rounding to binary64\<close>

text \<open>\<open>ilog2\<close> is the exponent of the binade, and the only one.\<close>

lemma ilog2_bounds:
  assumes "0 < a"
  shows "2 powi ilog2 a \<le> a \<and> a < 2 powi (ilog2 a + 1)"
proof (cases "1 \<le> a")
  case True
  define n where "n = nat \<lfloor>a\<rfloor>"
  define k where "k = floorlog 2 n"
  from True have n: "0 < n" "of_nat n \<le> a" "a < of_nat n + 1"
    by (simp_all add: n_def) linarith+
  from floorlog_bounds [of n 2] n(1) have b: "2 ^ (k - 1) \<le> n" "n < 2 ^ k"
    by (simp_all add: k_def)
  from n(1) have k: "0 < k"
    using floorlog_eq_zero_iff [of 2 n] by (auto simp add: k_def)
  have e: "ilog2 a = int (k - 1)"
    using True k by (simp add: ilog2_def n_def k_def)
  have "(2::rat) ^ (k - 1) \<le> of_nat n"
    using b(1) by (metis of_nat_le_iff of_nat_numeral of_nat_power)
  moreover have "of_nat n + 1 \<le> (2::rat) ^ k"
  proof -
    from b(2) have "n + 1 \<le> 2 ^ k" by simp
    then have "(of_nat (n + 1) :: rat) \<le> of_nat (2 ^ k)" by (simp only: of_nat_le_iff)
    then show ?thesis by simp
  qed
  moreover have "int (k - 1) + 1 = int k"
    using k by simp
  then have "(2::rat) powi (ilog2 a + 1) = 2 ^ k"
    unfolding e by (simp only: power_int_of_nat)
  moreover have "(2::rat) powi ilog2 a = 2 ^ (k - 1)"
    unfolding e by (simp only: power_int_of_nat)
  ultimately show ?thesis
    using n by linarith
next
  case False
  define c where "c = \<lceil>1 / a\<rceil>"
  define n where "n = nat (c - 1)"
  define k where "k = floorlog 2 n"
  from False assms have inv: "1 < 1 / a"
    by simp
  then have c: "2 \<le> c" "1 / a \<le> of_int c" "of_int c - 1 < 1 / a"
    by (simp_all add: c_def) linarith+
  then have n: "0 < n" "of_nat n = (of_int c :: rat) - 1"
    by (simp_all add: n_def)
  from floorlog_bounds [of n 2] n(1) have b: "2 ^ (k - 1) \<le> n" "n < 2 ^ k"
    by (simp_all add: k_def)
  from n(1) have k: "0 < k"
    using floorlog_eq_zero_iff [of 2 n] by (auto simp add: k_def)
  have e: "ilog2 a = - int k"
    using False by (simp add: ilog2_def n_def k_def c_def)
  have lo: "(2::rat) ^ (k - 1) \<le> of_nat n"
    using b(1) by (metis of_nat_le_iff of_nat_numeral of_nat_power)
  have hi: "of_nat n + 1 \<le> (2::rat) ^ k"
  proof -
    from b(2) have "n + 1 \<le> 2 ^ k" by simp
    then have "(of_nat (n + 1) :: rat) \<le> of_nat (2 ^ k)" by (simp only: of_nat_le_iff)
    then show ?thesis by simp
  qed
  have "1 / a \<le> 2 ^ k"
    using hi n(2) c(2) by linarith
  then have 1: "1 / 2 ^ k \<le> a"
    using assms by (simp add: field_simps)
  have "2 ^ (k - 1) < 1 / a"
    using lo n(2) c(3) by linarith
  then have 2: "a < 1 / 2 ^ (k - 1)"
    using assms by (simp add: field_simps)
  have p1: "(2::rat) powi ilog2 a = 1 / 2 ^ k"
    unfolding e by (simp only: power_int_minus_divide power_int_of_nat)
  have "ilog2 a + 1 = - int (k - 1)"
    unfolding e using k by simp
  then have p2: "(2::rat) powi (ilog2 a + 1) = 1 / 2 ^ (k - 1)"
    by (simp only: power_int_minus_divide power_int_of_nat)
  show ?thesis
    unfolding p1 p2 using 1 2 by simp
qed

lemma ilog2_unique:
  assumes "2 powi e \<le> a" and "a < 2 powi (e + 1)"
  shows "ilog2 a = e"
proof -
  have pos: "0 < a"
    using assms(1) by (meson less_le_trans zero_less_numeral zero_less_power_int)
  note b = ilog2_bounds [OF pos]
  have mono: "\<And>i j :: int. i + 1 \<le> j \<Longrightarrow> (2::rat) powi (i + 1) \<le> 2 powi j"
    by (rule power_int_increasing) simp_all
  show ?thesis
  proof (rule ccontr)
    assume "ilog2 a \<noteq> e"
    then consider "ilog2 a + 1 \<le> e" | "e + 1 \<le> ilog2 a"
      by linarith
    then show False
    proof cases
      case 1
      from mono [OF 1] b assms show False by linarith
    next
      case 2
      from mono [OF 2] b assms show False by linarith
    qed
  qed
qed

text \<open>\<open>round_half_even\<close> is within a half of its argument, and is the only such integer
  when one is nearer than a half.\<close>

lemma round_half_even_nearest: "\<bar>of_int (round_half_even r) - r\<bar> \<le> 1 / 2"
proof -
  define f where "f = \<lfloor>r\<rfloor>"
  have f: "of_int f \<le> r" "r < of_int f + 1"
    unfolding f_def by linarith+
  consider "r - of_int f < 1 / 2" | "1 / 2 < r - of_int f" | "r - of_int f = 1 / 2"
    by linarith
  then show ?thesis
  proof cases
    case 1
    then have "round_half_even r = f"
      by (simp add: round_half_even_def Let_def flip: f_def)
    with f 1 show ?thesis by simp
  next
    case 2
    then have "round_half_even r = f + 1"
      by (simp add: round_half_even_def Let_def flip: f_def)
    with f 2 show ?thesis by simp
  next
    case 3
    then have "round_half_even r = f \<or> round_half_even r = f + 1"
      by (simp add: round_half_even_def Let_def flip: f_def)
    with f 3 show ?thesis by auto
  qed
qed

lemma round_half_even_unique:
  assumes "\<bar>r - of_int m\<bar> < 1 / 2"
  shows "round_half_even r = m"
proof -
  define f where "f = \<lfloor>r\<rfloor>"
  have f: "of_int f \<le> r" "r < of_int f + 1"
    unfolding f_def by linarith+
  from assms have m: "of_int m - 1 / 2 < r" "r < of_int m + 1 / 2"
    by (simp_all add: abs_if split: if_splits)
  have int_lt: "\<And>i j :: int. (of_int i :: rat) < of_int j + 1 \<Longrightarrow> i \<le> j"
  proof -
    fix i j :: int
    assume "(of_int i :: rat) < of_int j + 1"
    then have "(of_int i :: rat) < of_int (j + 1)" by simp
    then have "i < j + 1" by (simp only: of_int_less_iff)
    then show "i \<le> j" by simp
  qed
  consider "r - of_int f < 1 / 2" | "1 / 2 < r - of_int f" | "r - of_int f = 1 / 2"
    by linarith
  then show ?thesis
  proof cases
    case 1
    have "f \<le> m" using f m by (intro int_lt) linarith
    moreover have "m \<le> f" using f m 1 by (intro int_lt) linarith
    ultimately show ?thesis
      using 1 by (simp add: round_half_even_def Let_def flip: f_def)
  next
    case 2
    have "f + 1 \<le> m" using f m 2 by (intro int_lt) simp
    moreover have "m \<le> f + 1" using f m by (intro int_lt) simp
    ultimately show ?thesis
      using 2 by (simp add: round_half_even_def Let_def flip: f_def)
  next
    case 3
    have a: "m \<le> f" using m 3 by (intro int_lt) linarith
    have b: "f + 1 \<le> m" using m 3 by (intro int_lt) simp
    from a b show ?thesis by simp
  qed
qed

text \<open>
  The rounded value is within half a unit in the last place of its argument. A value is
  computed from the exponent \<open>e\<close> of its binade and the multiple \<open>m\<close> of the unit that
  is nearest.
\<close>

lemma round_binary64_error:
  assumes "r \<noteq> 0"
  shows "\<bar>round_binary64 r - r\<bar> \<le> 2 powi (max (ilog2 \<bar>r\<bar>) (- 1022) - 53)"
proof -
  define u :: rat where "u = 2 powi (max (ilog2 \<bar>r\<bar>) (- 1022) - 52)"
  define m where "m = round_half_even (\<bar>r\<bar> / u)"
  have u: "0 < u" by (simp add: u_def)
  have v: "round_binary64 r = sgn r * (of_int m * u)"
    using assms by (simp add: round_binary64_def m_def u_def Let_def)
  have "\<bar>round_binary64 r - r\<bar> = \<bar>sgn r * (of_int m * u - \<bar>r\<bar>)\<bar>"
    unfolding v by (simp add: algebra_simps flip: abs_sgn) (metis mult.commute sgn_mult_abs)
  also have "\<dots> = \<bar>of_int m * u - \<bar>r\<bar>\<bar>"
    using assms by (simp add: abs_mult abs_sgn_eq)
  also have "\<dots> = u * \<bar>of_int m - \<bar>r\<bar> / u\<bar>"
  proof -
    have "of_int m * u - \<bar>r\<bar> = u * (of_int m - \<bar>r\<bar> / u)"
      using u by (simp add: field_simps)
    then show ?thesis using u by (simp add: abs_mult)
  qed
  also have "\<dots> \<le> u * (1 / 2)"
    using round_half_even_nearest [of "\<bar>r\<bar> / u"] u unfolding m_def
    by (intro mult_left_mono) simp_all
  also have "\<dots> = 2 powi (max (ilog2 \<bar>r\<bar>) (- 1022) - 53)"
  proof -
    have "(2::rat) powi (max (ilog2 \<bar>r\<bar>) (- 1022) - 52)
            = 2 powi (max (ilog2 \<bar>r\<bar>) (- 1022) - 53 + 1)"
      by simp
    also have "\<dots> = 2 powi (max (ilog2 \<bar>r\<bar>) (- 1022) - 53) * 2"
      by (subst power_int_add) simp_all
    finally show ?thesis by (simp add: u_def)
  qed
  finally show ?thesis .
qed

lemma round_binary64_eqI:
  assumes "2 powi e \<le> \<bar>r\<bar>" and "\<bar>r\<bar> < 2 powi (e + 1)" and "- 1022 \<le> e"
    and "\<bar>\<bar>r\<bar> / 2 powi (e - 52) - of_int m\<bar> < 1 / 2"
    and "y = sgn r * (of_int m * 2 powi (e - 52))"
  shows "round_binary64 r = y"
proof -
  have "r \<noteq> 0"
    using assms(1) by (metis abs_zero not_le zero_less_numeral zero_less_power_int)
  moreover have "ilog2 \<bar>r\<bar> = e"
    using assms(1,2) by (rule ilog2_unique)
  moreover have "max e (- 1022) = e"
    using assms(3) by simp
  ultimately show ?thesis
    using round_half_even_unique [OF assms(4)] assms(5)
    by (simp add: round_binary64_def)
qed

text \<open>A bound below \<open>2^1024\<close> on the rounded value makes the number finite.\<close>

lemma binary64_Finite:
  assumes "round_binary64 r = v" and "\<bar>v\<bar> < 2 ^ 1024"
  shows "binary64 r = Finite v"
  using assms by (simp add: binary64_def)

subsection \<open>The numbers of the examples\<close>

text \<open>0.7, 0.1, 0.9999, 0.009, 0.008 (1/125) and 0.0095 (19/2000) are rounded; 0, 1, 0.5 and 1.5 are exact.\<close>

lemma binary64_7_10: "binary64 (7 / 10) = Finite (3152519739159347 / 4503599627370496)"
  by (rule binary64_Finite, rule round_binary64_eqI [where e = "- 1" and m = 6305039478318694])
    simp_all

lemma binary64_1_10: "binary64 (1 / 10) = Finite (3602879701896397 / 36028797018963968)"
  by (rule binary64_Finite, rule round_binary64_eqI [where e = "- 4" and m = 7205759403792794])
    simp_all

lemma binary64_9999_10000:
  "binary64 (9999 / 10000) = Finite (4503149267407759 / 4503599627370496)"
  by (rule binary64_Finite, rule round_binary64_eqI [where e = "- 1" and m = 9006298534815518])
    simp_all

lemma binary64_9_1000: "binary64 (9 / 1000) = Finite (5188146770730811 / 576460752303423488)"
  by (rule binary64_Finite, rule round_binary64_eqI [where e = "- 7" and m = 5188146770730811])
    simp_all

lemma binary64_1_125: "binary64 (1 / 125) = Finite (1152921504606847 / 144115188075855872)"
  by (rule binary64_Finite, rule round_binary64_eqI [where e = "- 7" and m = 4611686018427388])
    simp_all

lemma binary64_19_2000:
  "binary64 (19 / 2000) = Finite (5476377146882523 / 576460752303423488)"
  by (rule binary64_Finite, rule round_binary64_eqI [where e = "- 7" and m = 5476377146882523])
    simp_all

lemma binary64_0: "binary64 0 = Finite 0"
  by (simp add: binary64_def round_binary64_def)

lemma binary64_1: "binary64 1 = Finite 1"
  by (rule binary64_Finite, rule round_binary64_eqI [where e = 0 and m = 4503599627370496])
    simp_all

lemma binary64_1_2: "binary64 (1 / 2) = Finite (1 / 2)"
  by (rule binary64_Finite, rule round_binary64_eqI [where e = "- 1" and m = 4503599627370496])
    simp_all

lemma binary64_3_2: "binary64 (3 / 2) = Finite (3 / 2)"
  by (rule binary64_Finite, rule round_binary64_eqI [where e = 0 and m = 6755399441055744])
    simp_all

lemma binary64_3: "binary64 3 = Finite 3"
  by (rule binary64_Finite, rule round_binary64_eqI [where e = 1 and m = 6755399441055744])
    simp_all

subsection \<open>Their scores\<close>

lemma extractQuality_Number:
  "extractQuality rt (Some (Number (Finite x)))
     = (if x = 1 then 1000 else if 0 < x \<and> x < 1 then \<lfloor>round_binary64 (x * 1000)\<rfloor> else 0)"
  by (simp add: extractQuality_def qNum_def)

lemma extractQuality_fraction:
  assumes "0 < x" and "x < 1" and "round_binary64 (x * 1000) = y" and "\<lfloor>y\<rfloor> = k"
  shows "extractQuality rt (Some (Number (Finite x))) = k"
  using assms by (simp add: extractQuality_Number)

lemma score_7_10: "extractQuality rt (Some (Number (binary64 (7 / 10)))) = 700"
proof -
  have r: "round_binary64 (3152519739159347 / 4503599627370496 * 1000) = 700"
    by (rule round_binary64_eqI [where e = 9 and m = 6157265115545600]) simp_all
  have f: "\<lfloor>700 :: rat\<rfloor> = 700"
    by simp
  show ?thesis
    unfolding binary64_7_10
    by (rule extractQuality_fraction [OF _ _ r f]) simp_all
qed

lemma score_1_10: "extractQuality rt (Some (Number (binary64 (1 / 10)))) = 100"
proof -
  have r: "round_binary64 (3602879701896397 / 36028797018963968 * 1000) = 100"
    by (rule round_binary64_eqI [where e = 6 and m = 7036874417766400]) simp_all
  have f: "\<lfloor>100 :: rat\<rfloor> = 100"
    by simp
  show ?thesis
    unfolding binary64_1_10
    by (rule extractQuality_fraction [OF _ _ r f]) simp_all
qed

lemma score_1_2: "extractQuality rt (Some (Number (Finite (1 / 2)))) = 500"
proof -
  have r: "round_binary64 (1 / 2 * 1000) = 500"
    by (rule round_binary64_eqI [where e = 8 and m = 8796093022208000]) simp_all
  have f: "\<lfloor>500 :: rat\<rfloor> = 500"
    by simp
  show ?thesis
    by (rule extractQuality_fraction [OF _ _ r f]) simp_all
qed

lemma score_9999_10000: "extractQuality rt (Some (Number (binary64 (9999 / 10000)))) = 999"
proof -
  have r: "round_binary64 (4503149267407759 / 4503599627370496 * 1000) = 8795213412905779 / 8796093022208"
    by (rule round_binary64_eqI [where e = 9 and m = 8795213412905779]) simp_all
  have f: "\<lfloor>8795213412905779 / 8796093022208 :: rat\<rfloor> = 999"
    by linarith
  show ?thesis
    unfolding binary64_9999_10000
    by (rule extractQuality_fraction [OF _ _ r f]) simp_all
qed

lemma score_9_1000: "extractQuality rt (Some (Number (binary64 (9 / 1000)))) = 9"
proof -
  have r: "round_binary64 (5188146770730811 / 576460752303423488 * 1000) = 9"
    by (rule round_binary64_eqI [where e = 3 and m = 5066549580791808]) simp_all
  have f: "\<lfloor>9 :: rat\<rfloor> = 9"
    by simp
  show ?thesis
    unfolding binary64_9_1000
    by (rule extractQuality_fraction [OF _ _ r f]) simp_all
qed

lemma score_1_125: "extractQuality rt (Some (Number (binary64 (1 / 125)))) = 8"
proof -
  have r: "round_binary64 (1152921504606847 / 144115188075855872 * 1000) = 8"
    by (rule round_binary64_eqI [where e = 3 and m = 4503599627370496]) simp_all
  have f: "\<lfloor>8 :: rat\<rfloor> = 8"
    by simp
  show ?thesis
    unfolding binary64_1_125
    by (rule extractQuality_fraction [OF _ _ r f]) simp_all
qed

lemma score_19_2000: "extractQuality rt (Some (Number (binary64 (19 / 2000)))) = 9"
proof -
  have r: "round_binary64 (5476377146882523 / 576460752303423488 * 1000) = 19 / 2"
    by (rule round_binary64_eqI [where e = 3 and m = 5348024557502464]) simp_all
  have f: "\<lfloor>19 / 2 :: rat\<rfloor> = 9"
    by linarith
  show ?thesis
    unfolding binary64_19_2000
    by (rule extractQuality_fraction [OF _ _ r f]) simp_all
qed

subsection \<open>Strings read as numbers\<close>

lemmas StringToNumber_eval = StringToNumber_def trim_def StrWhiteSpaceChar_def radix_prefix_def
  StrUnsignedDecimalLiteral_def isExponentIndicator_def SignedInteger_def Digits_def
  digit_value_def Let_def

lemma StringToNumber_true: "StringToNumber ''true'' = NaN"
  by (simp add: StringToNumber_eval)

lemma StringToNumber_false: "StringToNumber ''false'' = NaN"
  by (simp add: StringToNumber_eval)

lemma StringToNumber_words:
  "StringToNumber ''abc'' = NaN" "StringToNumber ''high'' = NaN" "StringToNumber ''0.5x'' = NaN"
  "StringToNumber ''1,5'' = NaN" "StringToNumber ''.'' = NaN" "StringToNumber ''1e'' = NaN"
  "StringToNumber ''0x'' = NaN" "StringToNumber ''-0x10'' = NaN" "StringToNumber ''infinity'' = NaN"
  by (simp_all add: StringToNumber_eval)

lemma StringToNumber_empty: "StringToNumber [] = Finite 0" "StringToNumber ''  '' = Finite 0"
  by (simp_all add: StringToNumber_eval)

lemma StringToNumber_Infinity:
  "StringToNumber ''Infinity'' = PosInfinity" "StringToNumber ''-Infinity'' = NegInfinity"
  by (simp_all add: StringToNumber_eval)

lemma StringToNumber_numbers:
  "StringToNumber ''1'' = Finite 1" "StringToNumber '' 1.0 '' = Finite 1"
  "StringToNumber ''0.5'' = Finite (1 / 2)" "StringToNumber ''.5'' = Finite (1 / 2)"
  "StringToNumber ''5e-1'' = Finite (1 / 2)" "StringToNumber ''0'' = Finite 0"
  "StringToNumber ''0x1'' = Finite 1" "StringToNumber ''0.7'' = binary64 (7 / 10)"
  by (simp_all add: StringToNumber_eval binary64_0 binary64_1 binary64_1_2)

section \<open>The parameter \<open>q\<close> in the matcher\<close>

text \<open>
  C1 says that a requested parameter \<open>q\<close> is skipped without comparing values, never
  appears in the returned mismatch map, and that
  \<open>match([["text","html"],{q:0.5}], [["text","html"],{}])\<close> returns \<open>true\<close>. The code
  does not do so, against the documentation of \<open>contains\<close> (``Parameter q is
  ignored''): the test \<open>key === "q"\<close> only lets \<open>q\<close> pass the test of the key, its
  values are compared all the same. When the allowed map has no \<open>q\<close>, the comparison
  calls \<open>toString\<close> on \<open>undefined\<close> and \<open>match\<close> throws a \<open>TypeError\<close>, for the
  media type \<open>text/html\<close> as for the bare item of the example (an array, whose string
  \<open>text,html\<close> the splitter rejects on both sides). When the allowed map has another
  \<open>q\<close>, the requested \<open>q\<close> is returned in the mismatch map, unless the host gives
  both numbers the same string.
\<close>

theorem match_q_throws:
  "match rt (Object 0 ''text/html'', [(''q'', Number (Finite (1 / 2)))]) (Object 1 ''text/html'', [])
     = Inl TypeError
   \<and> match rt (Object 0 ''text,html'', [(''q'', Number (Finite (1 / 2)))]) (Object 1 ''text,html'', [])
     = Inl TypeError
   \<and> match rt (Object 0 ''text/html'', [(''q'', Number (Finite (1 / 2)))])
               (Object 1 ''text/html'', [(''q'', Number (binary64 (7 / 10)))])
     = (if Number_toString rt (Finite (1 / 2)) = Number_toString rt (binary64 (7 / 10))
        then Inr (Bool True)
        else Inr (Mismatched [(''q'', Number (Finite (1 / 2)))]))"
  by (simp add: match_def contains_def Map_eval split_text_html split_comma binary64_7_10)

text \<open>
  C2 says that neither \<open>sort\<close> nor \<open>match\<close> throws on any input. \<open>match\<close> throws a
  \<open>TypeError\<close> on the items of the package's own example: the requested item
  \<open>text/html;level=3;q=0.7\<close> against the allowed item \<open>text/html\<close> with \<open>level\<close>
  2. The loop compares \<open>level\<close>, then reaches \<open>q\<close>, which the allowed map does not
  have.
\<close>

theorem match_readme_throws:
  "match rt (Object 0 ''text/html'', [(''level'', Number (Finite 3)), (''q'', Number (binary64 (7 / 10)))])
            (Object 1 ''text/html'', [(''level'', Number (Finite 2))])
     = Inl TypeError"
  by (simp add: match_def contains_def Map_eval split_text_html)

text \<open>
  C5 says that a requested key other than \<open>q\<close> that the allowed map does not have
  makes the whole match \<open>false\<close>, whatever the other parameters are. With a \<open>q\<close>
  before that key and no \<open>q\<close> in the allowed map, \<open>match\<close> throws before it reaches
  the key; with the same two parameters in the other order it returns \<open>false\<close>.
\<close>

theorem match_unknown_after_q_throws:
  "match rt (Object 0 ''text/html'', [(''q'', Number (Finite (1 / 2))), (''charset'', String ''utf-8'')])
            (Object 1 ''text/html'', [])
     = Inl TypeError
   \<and> match rt (Object 0 ''text/html'', [(''charset'', String ''utf-8''), (''q'', Number (Finite (1 / 2)))])
              (Object 1 ''text/html'', [])
     = Inr (Bool False)"
  by (simp add: match_def contains_def Map_eval split_text_html)

text \<open>
  The three steps of the loop, as the source writes them: a key other than \<open>q\<close> that
  the allowed map lacks ends the loop with \<open>false\<close>; a key of both maps whose values
  differ is recorded and the loop goes on; at the end the mismatch map is returned when
  it is not empty and \<open>true\<close> otherwise.
\<close>

lemma contains_loop_unknown_key:
  assumes "key \<noteq> ''q''" and "\<not> Map_has allowed key"
  shows "contains_loop rt req allowed (key # keys) misMatched = Inr (Bool False)"
  using assms by simp

lemma contains_loop_mismatch:
  assumes "Map_get req key = Some reqValue" and "Map_get allowed key = Some allowedValue"
    and "\<not> strict_equals (Some reqValue) (Some allowedValue)"
    and "toString rt reqValue \<noteq> toString rt allowedValue"
  shows "contains_loop rt req allowed (key # keys) misMatched
           = contains_loop rt req allowed keys (Map_set misMatched key reqValue)"
proof -
  from assms(2) have "Map_has allowed key"
    by (auto simp add: Map_get_def Map_has_def dest: map_of_SomeD intro: rev_image_eqI)
  with assms show ?thesis by simp
qed

lemma contains_loop_end:
  "contains_loop rt req allowed [] misMatched
     = Inr (if misMatched = [] then Bool True else Mismatched misMatched)"
  by (simp add: Map_size_def)

section \<open>Tokens the splitter rejects\<close>

text \<open>
  C3 as the specification states it: whenever the requested or the allowed token fails
  the grammar, \<open>match\<close> returns \<open>false\<close>. It does not hold: the components of a
  rejected token are \<open>undefined\<close>, two rejected tokens have equal components, and a
  requested \<open>*/*\<close> never looks at the allowed components.
\<close>

theorem match_malformed_counterexample:
  "split_mediaType ''text'' = [] \<and> split_mediaType ''html;x'' = []
   \<and> match unspecified_host (Object 0 ''text'', []) (Object 1 ''html;x'', []) = Inr (Bool True)
   \<and> match unspecified_host (Object 0 ''*/*'', []) (Object 1 ''html;x'', []) = Inr (Bool True)"
  by (simp add: match_def contains_def Map_eval split_eval)

text \<open>
  C3, amended: when exactly one of the two tokens fails the grammar and the requested
  token is not \<open>*/*\<close>, \<open>match\<close> returns \<open>false\<close>.
\<close>

theorem match_malformed:
  assumes "(split_mediaType (toString rt (fst req)) = [])
             \<noteq> (split_mediaType (toString rt (fst allowed)) = [])"
    and "split_mediaType (toString rt (fst req)) \<noteq> [''*'', ''*'']"
  shows "match rt req allowed = Inr (Bool False)"
  using assms split_shape [of "toString rt (fst req)"] split_shape [of "toString rt (fst allowed)"]
  by (auto simp add: match_def)

theorem match_malformed_witness:
  "match unspecified_host (Object 0 ''text'', []) (Object 1 ''text/html'', []) = Inr (Bool False)
   \<and> match unspecified_host (Object 0 ''text/*'', []) (Object 1 ''html;x'', []) = Inr (Bool False)"
  using match_malformed [of unspecified_host "(Object 0 ''text'', [])" "(Object 1 ''text/html'', [])"]
    match_malformed [of unspecified_host "(Object 0 ''text/*'', [])" "(Object 1 ''html;x'', [])"]
  by (simp add: split_eval)

text \<open>Two rejected tokens pass the checks of type and subtype.\<close>

lemma match_both_malformed:
  assumes "split_mediaType (toString rt (fst req)) = []"
    and "split_mediaType (toString rt (fst allowed)) = []"
  shows "match rt req allowed = contains rt (snd req) (snd allowed)"
  using assms by (simp add: match_def)

section \<open>The quality score\<close>

text \<open>
  C4: the score is 1000 when \<open>q\<close> is absent and when its number is exactly 1; when the
  number lies strictly between 0 and 1 it is the floor of the number times 1000, the
  product being that of the language (the exact product rounded to binary64); it is 0 for
  every other number: at most 0, above 1, an infinity, or \<open>NaN\<close>. The number of a value
  is \<open>qNum\<close>: the value itself when it is a number, else what its string reads as, so
  that a value that is no number and does not read as one (a boolean, a word) has the
  number \<open>NaN\<close> and scores 0, and a string that reads as a number scores as that
  number. So 1 scores 1000, 0.9999 scores 999 and 0.7 scores 700, 0 and 1.5 score 0.
\<close>

theorem extractQuality_score:
  "extractQuality rt None = 1000
   \<and> (qNum rt v = Finite 1 \<longrightarrow> extractQuality rt (Some v) = 1000)
   \<and> (qNum rt v = Finite x \<and> 0 < x \<and> x < 1
        \<longrightarrow> extractQuality rt (Some v) = \<lfloor>round_binary64 (x * 1000)\<rfloor>)
   \<and> (qNum rt v = Finite x \<and> (x \<le> 0 \<or> 1 < x) \<longrightarrow> extractQuality rt (Some v) = 0)
   \<and> (qNum rt v \<in> {NaN, PosInfinity, NegInfinity} \<longrightarrow> extractQuality rt (Some v) = 0)
   \<and> qNum rt (Number n) = n
   \<and> qNum rt (String s) = StringToNumber s
   \<and> qNum rt (Object r s) = StringToNumber s
   \<and> qNum rt (Boolean b) = NaN
   \<and> qNum rt (String ''abc'') = NaN
   \<and> qNum rt (Object r ''high'') = NaN
   \<and> extractQuality rt (Some (Number (Finite 1))) = 1000
   \<and> extractQuality rt (Some (Number (binary64 (9999 / 10000)))) = 999
   \<and> extractQuality rt (Some (Number (binary64 (7 / 10)))) = 700
   \<and> extractQuality rt (Some (Number (Finite 0))) = 0
   \<and> extractQuality rt (Some (Number (Finite (3 / 2)))) = 0
   \<and> extractQuality rt (Some (Number NaN)) = 0
   \<and> extractQuality rt (Some (Boolean True)) = 0
   \<and> extractQuality rt (Some (String ''abc'')) = 0
   \<and> extractQuality rt (Some (Object r ''high'')) = 0
   \<and> extractQuality rt (Some (String ''0.5'')) = 500
   \<and> extractQuality rt (Some (String ''1'')) = 1000"
proof -
  have general:
    "qNum rt v = Finite 1 \<longrightarrow> extractQuality rt (Some v) = 1000"
    "qNum rt v = Finite x \<and> 0 < x \<and> x < 1
      \<longrightarrow> extractQuality rt (Some v) = \<lfloor>round_binary64 (x * 1000)\<rfloor>"
    "qNum rt v = Finite x \<and> (x \<le> 0 \<or> 1 < x) \<longrightarrow> extractQuality rt (Some v) = 0"
    "qNum rt v \<in> {NaN, PosInfinity, NegInfinity} \<longrightarrow> extractQuality rt (Some v) = 0"
    by (auto simp add: extractQuality_def)
  have numbers: "qNum rt (Number n) = n" "qNum rt (String s) = StringToNumber s"
    "qNum rt (Object r s) = StringToNumber s" "qNum rt (Boolean b) = NaN"
    "qNum rt (String ''abc'') = NaN" "qNum rt (Object r ''high'') = NaN"
    by (simp_all add: qNum_def StringToNumber_true StringToNumber_false StringToNumber_words)
  have exact: "extractQuality rt (Some (Number (Finite 1))) = 1000"
    "extractQuality rt (Some (Number (Finite 0))) = 0"
    "extractQuality rt (Some (Number (Finite (3 / 2)))) = 0"
    "extractQuality rt (Some (Number NaN)) = 0"
    by (simp_all add: extractQuality_def qNum_def)
  have words: "extractQuality rt (Some (Boolean True)) = 0"
    "extractQuality rt (Some (String ''abc'')) = 0"
    "extractQuality rt (Some (Object r ''high'')) = 0"
    by (simp_all add: extractQuality_def qNum_def StringToNumber_true StringToNumber_words)
  have "qNum rt (String ''0.5'') = Finite (1 / 2)" "qNum rt (String ''1'') = Finite 1"
    by (simp_all add: qNum_def StringToNumber_numbers)
  then have strings: "extractQuality rt (Some (String ''0.5'')) = 500"
    "extractQuality rt (Some (String ''1'')) = 1000"
    using score_1_2 [of rt] by (simp_all add: extractQuality_def qNum_def)
  have absent: "extractQuality rt None = 1000"
    by (simp add: extractQuality_def)
  from absent general numbers exact words strings score_9999_10000 [of rt] score_7_10 [of rt]
  show ?thesis by blast
qed

theorem extractQuality_score_witness:
  "extractQuality unspecified_host (Some (Number (Finite 1))) = 1000
   \<and> extractQuality unspecified_host (Some (Number (Finite (1 / 2)))) = 500
   \<and> extractQuality unspecified_host (Some (Number (Finite (- 1)))) = 0
   \<and> extractQuality unspecified_host (Some (String ''true'')) = 0"
proof -
  have "\<lfloor>round_binary64 (1 / 2 * 1000)\<rfloor> = 500"
    using score_1_2 [of unspecified_host] by (simp add: extractQuality_Number)
  moreover have "qNum unspecified_host (String ''true'') = NaN"
    by (simp add: qNum_def StringToNumber_true)
  ultimately show ?thesis
    using extractQuality_score [of unspecified_host "Number (Finite 1)" 1]
      extractQuality_score [of unspecified_host "Number (Finite (1 / 2))" "1 / 2"]
      extractQuality_score [of unspecified_host "Number (Finite (- 1))" "- 1"]
      extractQuality_score [of unspecified_host "String ''true''" 0]
    by (simp add: qNum_def)
qed

section \<open>The checks of type and subtype\<close>

text \<open>
  C6: with the components the splitter yields for the two bare items, \<open>match\<close> goes on
  to the parameters exactly when the requested type is \<open>*\<close> or equals the allowed
  type, and the requested subtype is \<open>*\<close> or equals the allowed subtype; otherwise it
  returns \<open>false\<close>. A \<open>*\<close> on the allowed side is compared like any other string:
  against a requested component that is not \<open>*\<close> the match is \<open>false\<close>.
\<close>

theorem match_directional:
  assumes "destructure2 (split_mediaType (toString rt (fst req))) = (reqType, reqSubtype)"
    and "destructure2 (split_mediaType (toString rt (fst allowed))) = (allowedType, allowedSubtype)"
  shows "match rt req allowed =
           (if (reqType = Some ''*'' \<or> reqType = allowedType)
               \<and> (reqSubtype = Some ''*'' \<or> reqSubtype = allowedSubtype)
            then contains rt (snd req) (snd allowed)
            else Inr (Bool False))
         \<and> (allowedType = Some ''*'' \<and> reqType \<noteq> Some ''*''
              \<longrightarrow> match rt req allowed = Inr (Bool False))
         \<and> (allowedSubtype = Some ''*'' \<and> reqSubtype \<noteq> Some ''*''
              \<longrightarrow> match rt req allowed = Inr (Bool False))"
  using assms by (auto simp add: match_def)

theorem match_directional_witness:
  "match unspecified_host (Object 0 ''text/*'', []) (Object 1 ''text/html'', []) = Inr (Bool True)
   \<and> match unspecified_host (Object 0 ''text/html'', []) (Object 1 ''text/*'', []) = Inr (Bool False)
   \<and> match unspecified_host (Object 0 ''text/html'', []) (Object 1 ''*/*'', []) = Inr (Bool False)"
  using match_directional [of unspecified_host "(Object 0 ''text/*'', [])" "Some ''text''" "Some ''*''"
      "(Object 1 ''text/html'', [])" "Some ''text''" "Some ''html''"]
    match_directional [of unspecified_host "(Object 0 ''text/html'', [])" "Some ''text''" "Some ''html''"
      "(Object 1 ''text/*'', [])" "Some ''text''" "Some ''*''"]
    match_directional [of unspecified_host "(Object 0 ''text/html'', [])" "Some ''text''" "Some ''html''"
      "(Object 1 ''*/*'', [])" "Some ''*''" "Some ''*''"]
  by (simp add: split_text_html split_text_star split_star_star contains_def Map_eval)

section \<open>The comparator\<close>

text \<open>Swapping the arguments of a discriminator changes the sign of its result.\<close>

lemma sortByQuality_swap: "sortByQuality rt x y = - sortByQuality rt y x"
  by (simp add: sortByQuality_def)

lemma sortByType_swap: "sortByType rt x y = - sortByType rt y x"
  by (auto simp add: sortByType_def split: prod.splits)

lemma sortByParameters_swap: "sortByParameters x y = - sortByParameters y x"
  by (simp add: sortByParameters_def)

lemma comparator_swap: "comparator rt a b = - comparator rt b a"
  unfolding comparator_def Let_def
  using sortByQuality_swap [of rt "Map_get (snd a) ''q''" "Map_get (snd b) ''q''"]
    sortByType_swap [of rt "fst a" "fst b"] sortByParameters_swap [of "snd a" "snd b"]
  by auto

text \<open>
  C10: the comparator changes sign when its arguments are swapped, and so does each of
  its three discriminators.
\<close>

theorem comparator_antisymmetric:
  "comparator rt a b = - comparator rt b a
   \<and> sortByQuality rt qa qb = - sortByQuality rt qb qa
   \<and> sortByType rt ta tb = - sortByType rt tb ta
   \<and> sortByParameters pa pb = - sortByParameters pb pa"
  using comparator_swap [of rt a b] sortByQuality_swap [of rt qa qb] sortByType_swap [of rt ta tb]
    sortByParameters_swap [of pa pb]
  by simp

subsection \<open>The comparator is a total preorder\<close>

text \<open>
  \<open>sortByType\<close> compares a rank: 2 for \<open>*/*\<close>, 1 for another item with subtype
  \<open>*\<close>, 0 for the rest. The comparator is therefore transitive and total, and every
  stable sorting algorithm returns the same array for it.
\<close>

lemma sortByType_rank:
  fixes rt
  defines "rank \<equiv> \<lambda>x. (case destructure2 (split_mediaType (toString rt x)) of
      (t, s) \<Rightarrow> if t = Some ''*'' \<and> s = Some ''*'' then 2 else if s = Some ''*'' then 1 else (0::int))"
  shows "sortByType rt a b = (if rank a = rank b then 0 else if rank b < rank a then 1 else - 1)"
  by (auto simp add: sortByType_def rank_def split: prod.splits)

lemma comparator_trans:
  assumes "comparator rt a b \<le> 0" and "comparator rt b c \<le> 0"
  shows "comparator rt a c \<le> 0"
proof -
  define rank where "rank = (\<lambda>x. (case destructure2 (split_mediaType (toString rt x)) of
      (t, s) \<Rightarrow> if t = Some ''*'' \<and> s = Some ''*'' then 2 else if s = Some ''*'' then 1 else (0::int)))"
  have T: "\<And>x y. sortByType rt x y = (if rank x = rank y then 0 else if rank y < rank x then 1 else - 1)"
    unfolding rank_def by (rule sortByType_rank)
  show ?thesis
    using assms unfolding comparator_def Let_def sortByQuality_def sortByParameters_def T
    by (auto split: if_splits)
qed

lemma comparator_total: "comparator rt a b \<le> 0 \<or> comparator rt b a \<le> 0"
  using comparator_swap [of rt a b] by linarith

section \<open>Sorting\<close>

lemma mset_insert_by: "mset (insert_by cmp x xs) = add_mset x (mset xs)"
  by (induction xs) simp_all

lemma mset_sort_by: "mset (sort_by cmp xs) = mset xs"
  by (induction xs) (simp_all add: sort_by_def mset_insert_by)

lemma set_insert_by: "set (insert_by cmp x xs) = insert x (set xs)"
  by (induction xs) auto

lemma sorted_insert_by:
  assumes "sorted_wrt (\<lambda>x y. comparator rt x y \<le> 0) xs"
  shows "sorted_wrt (\<lambda>x y. comparator rt x y \<le> 0) (insert_by (comparator rt) x xs)"
  using assms
proof (induction xs)
  case Nil
  then show ?case by simp
next
  case (Cons y ys)
  show ?case
  proof (cases "comparator rt x y \<le> 0")
    case True
    with Cons.prems show ?thesis
      by (auto intro: comparator_trans)
  next
    case False
    then have "comparator rt y x \<le> 0"
      using comparator_total [of rt x y] by simp
    with False Cons show ?thesis
      by (auto simp add: set_insert_by)
  qed
qed

text \<open>The sorted array is ordered by the comparator.\<close>

lemma sorted_sort_by: "sorted_wrt (\<lambda>x y. comparator rt x y \<le> 0) (sort_by (comparator rt) xs)"
proof (induction xs)
  case Nil
  then show ?case by (simp add: sort_by_def)
next
  case (Cons x xs)
  then show ?case
    using sorted_insert_by [of rt "sort_by (comparator rt) xs" x] by (simp add: sort_by_def)
qed

lemma sort_by_pair: "sort_by cmp [x, y] = (if cmp x y \<le> 0 then [x, y] else [y, x])"
  by (simp add: sort_by_def)

text \<open>
  \<open>sort\<close> returns the sorted copy at a new reference; no item of the sorted array
  comes before an item that the comparator puts before it.
\<close>

lemma sort_mediaType_result:
  "sort_mediaType rt h types = (h @ [sort_by (comparator rt) (h ! types)], length h)"
  by (simp add: sort_mediaType_def Array_slice_def Array_sort_def)

lemma sort_mediaType_ordered:
  assumes "sort_mediaType rt h types = (h', s)" and "i < j" and "j < length (h' ! s)"
  shows "comparator rt (h' ! s ! i) (h' ! s ! j) \<le> 0"
proof -
  from assms(1) have "h' ! s = sort_by (comparator rt) (h ! types)"
    by (auto simp add: sort_mediaType_result)
  with sorted_sort_by [of rt "h ! types"] assms(2,3) show ?thesis
    by (simp add: sorted_wrt_iff_nth_less)
qed

lemma sort_mediaType_never_inverts:
  assumes "0 < comparator rt a b"
  shows "\<forall>h types h' s i j. types < length h \<and> sort_mediaType rt h types = (h', s)
           \<and> i < j \<and> j < length (h' ! s) \<and> h' ! s ! i = a \<longrightarrow> h' ! s ! j \<noteq> b"
  using assms sort_mediaType_ordered by fastforce

lemma sort_mediaType_pair:
  assumes "0 < comparator rt a b"
  shows "sort_mediaType rt [[a, b]] 0 = ([[a, b], [b, a]], 1)"
    and "sort_mediaType rt [[b, a]] 0 = ([[b, a], [b, a]], 1)"
  using assms comparator_swap [of rt b a]
  by (simp_all add: sort_mediaType_result sort_by_pair)

lemmas comparator_eval = comparator_def sortByQuality_def sortByType_def sortByParameters_def
  countQ_def score_7_10 score_1_2 score_1_10

lemma sort_by_parsedAccept: "sort_by (comparator rt) parsedAccept = parsedAccept"
  by (simp add: parsedAccept_def sort_by_def comparator_eval Map_eval
      split_text_html split_text_plain split_text_star)

lemma sort_by_rev_parsedAccept: "sort_by (comparator rt) (rev parsedAccept) = parsedAccept"
  by (simp add: parsedAccept_def sort_by_def comparator_eval Map_eval
      split_text_html split_text_plain split_text_star)

text \<open>
  C9: \<open>sort\<close> leaves every array of the store as it was, the array it is given
  included, and returns a new array (a reference the store did not have) that holds the
  same items as the given one, as a multiset.
\<close>

theorem sort_mediaType_frame:
  assumes "types < length h"
  shows "case sort_mediaType rt h types of
           (h', copy) \<Rightarrow>
             copy \<noteq> types \<and> copy = length h \<and> length h' = Suc (length h)
             \<and> (\<forall>r < length h. h' ! r = h ! r)
             \<and> mset (h' ! copy) = mset (h ! types)"
  using assms
  by (simp add: sort_mediaType_def Array_slice_def Array_sort_def mset_sort_by nth_append)

theorem sort_mediaType_frame_witness:
  "case sort_mediaType unspecified_host [rev parsedAccept] 0 of
     (h', copy) \<Rightarrow> copy = 1 \<and> h' = [rev parsedAccept, parsedAccept]
       \<and> mset parsedAccept = mset (rev parsedAccept)"
  using sort_mediaType_frame [of 0 "[rev parsedAccept]" unspecified_host]
  by (simp add: sort_mediaType_def Array_slice_def Array_sort_def sort_by_rev_parsedAccept)

subsection \<open>Specificity\<close>

text \<open>
  C7: let the quality scores of two items tie. When their pairs of type and subtype are
  equal, when both have the subtype \<open>*\<close> and neither is \<open>*/*\<close>, and when neither has
  the subtype \<open>*\<close>, the specificity ties too: \<open>sortByType\<close> is 0 and the comparator is
  left to the count of parameters. When the first item is \<open>*/*\<close> and the second is
  not, and when the first has the subtype \<open>*\<close> and the second has not, the comparator
  is 1 in this order and -1 in the other, so that the first item sorts after the second:
  sorting the two, in either order, puts the second first, and in no sorted array does
  the first come before the second.
\<close>

theorem specificity_on_quality_tie:
  assumes "sortByQuality rt (Map_get (snd a) ''q'') (Map_get (snd b) ''q'') = 0"
    and "destructure2 (split_mediaType (toString rt (fst a))) = (aType, aSubtype)"
    and "destructure2 (split_mediaType (toString rt (fst b))) = (bType, bSubtype)"
  shows "((aType = bType \<and> aSubtype = bSubtype)
          \<or> (aSubtype = Some ''*'' \<and> bSubtype = Some ''*'' \<and> aType \<noteq> Some ''*'' \<and> bType \<noteq> Some ''*'')
          \<or> (aSubtype \<noteq> Some ''*'' \<and> bSubtype \<noteq> Some ''*'')
         \<longrightarrow> sortByType rt (fst a) (fst b) = 0
           \<and> comparator rt a b = sortByParameters (snd a) (snd b))
       \<and> ((aType = Some ''*'' \<and> aSubtype = Some ''*'' \<and> (bType \<noteq> Some ''*'' \<or> bSubtype \<noteq> Some ''*''))
          \<or> (aSubtype = Some ''*'' \<and> bSubtype \<noteq> Some ''*'')
         \<longrightarrow> sortByType rt (fst a) (fst b) = 1
           \<and> comparator rt a b = 1 \<and> comparator rt b a = - 1
           \<and> sort_mediaType rt [[a, b]] 0 = ([[a, b], [b, a]], 1)
           \<and> sort_mediaType rt [[b, a]] 0 = ([[b, a], [b, a]], 1)
           \<and> (\<forall>h types h' s i j. types < length h \<and> sort_mediaType rt h types = (h', s)
                 \<and> i < j \<and> j < length (h' ! s) \<and> h' ! s ! i = a \<longrightarrow> h' ! s ! j \<noteq> b))"
proof -
  have ties: "sortByType rt (fst a) (fst b) = 0
      \<and> comparator rt a b = sortByParameters (snd a) (snd b)"
    if "(aType = bType \<and> aSubtype = bSubtype)
        \<or> (aSubtype = Some ''*'' \<and> bSubtype = Some ''*'' \<and> aType \<noteq> Some ''*'' \<and> bType \<noteq> Some ''*'')
        \<or> (aSubtype \<noteq> Some ''*'' \<and> bSubtype \<noteq> Some ''*'')"
  proof -
    from that assms(2,3) have "sortByType rt (fst a) (fst b) = 0"
      by (auto simp add: sortByType_def)
    with assms(1) show ?thesis
      by (simp add: comparator_def)
  qed
  have after: "sortByType rt (fst a) (fst b) = 1
      \<and> comparator rt a b = 1 \<and> comparator rt b a = - 1
      \<and> sort_mediaType rt [[a, b]] 0 = ([[a, b], [b, a]], 1)
      \<and> sort_mediaType rt [[b, a]] 0 = ([[b, a], [b, a]], 1)
      \<and> (\<forall>h types h' s i j. types < length h \<and> sort_mediaType rt h types = (h', s)
            \<and> i < j \<and> j < length (h' ! s) \<and> h' ! s ! i = a \<longrightarrow> h' ! s ! j \<noteq> b)"
    if "(aType = Some ''*'' \<and> aSubtype = Some ''*'' \<and> (bType \<noteq> Some ''*'' \<or> bSubtype \<noteq> Some ''*''))
        \<or> (aSubtype = Some ''*'' \<and> bSubtype \<noteq> Some ''*'')"
  proof -
    from that assms(2,3) have t: "sortByType rt (fst a) (fst b) = 1"
      by (auto simp add: sortByType_def)
    with assms(1) have ab: "comparator rt a b = 1"
      by (simp add: comparator_def)
    then have ba: "comparator rt b a = - 1"
      using comparator_swap [of rt b a] by simp
    from ab have pos: "0 < comparator rt a b"
      by simp
    from t ab ba sort_mediaType_pair [OF pos] sort_mediaType_never_inverts [OF pos]
    show ?thesis by blast
  qed
  from ties after show ?thesis by blast
qed

theorem specificity_on_quality_tie_witness:
  "comparator unspecified_host (Object 0 ''*/*'', []) (Object 1 ''text/*'', []) = 1
   \<and> sort_mediaType unspecified_host [[(Object 0 ''*/*'', []), (Object 1 ''text/*'', [])]] 0
       = ([[(Object 0 ''*/*'', []), (Object 1 ''text/*'', [])],
           [(Object 1 ''text/*'', []), (Object 0 ''*/*'', [])]], 1)
   \<and> comparator unspecified_host (Object 1 ''text/*'', []) (Object 2 ''text/html'', []) = 1
   \<and> comparator unspecified_host (Object 2 ''text/html'', [(''level'', Number (Finite 1))])
        (Object 3 ''text/plain'', []) = - 1"
proof -
  have tie: "sortByQuality unspecified_host (Map_get [] ''q'') (Map_get [] ''q'') = 0"
    "sortByQuality unspecified_host (Map_get [(''level'', Number (Finite 1))] ''q'')
       (Map_get [] ''q'') = 0"
    by (simp_all add: sortByQuality_def extractQuality_def Map_eval)
  have 1: "comparator unspecified_host (Object 0 ''*/*'', []) (Object 1 ''text/*'', []) = 1
      \<and> sort_mediaType unspecified_host [[(Object 0 ''*/*'', []), (Object 1 ''text/*'', [])]] 0
       = ([[(Object 0 ''*/*'', []), (Object 1 ''text/*'', [])],
           [(Object 1 ''text/*'', []), (Object 0 ''*/*'', [])]], 1)"
    using specificity_on_quality_tie [of unspecified_host "(Object 0 ''*/*'', [])"
        "(Object 1 ''text/*'', [])" "Some ''*''" "Some ''*''" "Some ''text''" "Some ''*''"] tie(1)
    by (simp add: split_star_star split_text_star)
  have 2: "comparator unspecified_host (Object 1 ''text/*'', []) (Object 2 ''text/html'', []) = 1"
    using specificity_on_quality_tie [of unspecified_host "(Object 1 ''text/*'', [])"
        "(Object 2 ''text/html'', [])" "Some ''text''" "Some ''*''" "Some ''text''" "Some ''html''"] tie(1)
    by (simp add: split_text_star split_text_html)
  have 3: "comparator unspecified_host (Object 2 ''text/html'', [(''level'', Number (Finite 1))])
        (Object 3 ''text/plain'', []) = - 1"
    using specificity_on_quality_tie [of unspecified_host
        "(Object 2 ''text/html'', [(''level'', Number (Finite 1))])" "(Object 3 ''text/plain'', [])"
        "Some ''text''" "Some ''html''" "Some ''text''" "Some ''plain''"] tie(2)
    by (simp add: split_text_html split_text_plain sortByParameters_def countQ_def Map_eval)
  from 1 2 3 show ?thesis by simp
qed

subsection \<open>The count of parameters\<close>

text \<open>In a map, the size less one for a key \<open>q\<close> counts the keys other than \<open>q\<close>.\<close>

lemma nonq_count:
  assumes "wf_Parameters m"
  shows "Map_size m - countQ (Map_has m ''q'')
           = int (length (filter (\<lambda>k. k \<noteq> ''q'') (Map_keys m)))"
  using assms
proof (induction m)
  case Nil
  then show ?case by (simp add: Map_eval countQ_def)
next
  case (Cons p m)
  then have wf: "wf_Parameters m" and fresh: "fst p \<notin> set (map fst m)"
    by (simp_all add: wf_Parameters_def)
  show ?case
  proof (cases "fst p = ''q''")
    case True
    with fresh have "\<forall>k \<in> set (map fst m). k \<noteq> ''q''"
      by metis
    then have "filter (\<lambda>k. k \<noteq> ''q'') (map fst m) = map fst m"
      by (simp only: filter_id_conv)
    with True fresh show ?thesis
      by (simp add: Map_eval countQ_def)
  next
    case False
    with Cons.IH [OF wf] show ?thesis
      by (simp add: Map_eval countQ_def)
  qed
qed

lemma sortByParameters_count:
  assumes "wf_Parameters a" and "wf_Parameters b"
  shows "sortByParameters a b
           = int (length (filter (\<lambda>k. k \<noteq> ''q'') (Map_keys b)))
             - int (length (filter (\<lambda>k. k \<noteq> ''q'') (Map_keys a)))"
  using nonq_count [OF assms(1)] nonq_count [OF assms(2)]
  by (simp add: sortByParameters_def)

text \<open>
  C8: when the quality and the specificity of two items tie, the comparator is the
  number of parameters other than \<open>q\<close> of the second item less that of the first, so
  that the item with more of them sorts first: sorting the two items, in either order,
  puts it first, and in no sorted array does the other come before it. Sorting the items
  of the header \<open>text/html;level=3;q=0.7, text/html;q=0.7, text/plain;q=0.5,
  text/*;q=0.1\<close>, given in this order or in the reverse one, yields \<open>text/html;level=3\<close>,
  \<open>text/html\<close>, \<open>text/plain\<close>, \<open>text/*\<close>.
\<close>

theorem comparator_parameter_count:
  "(wf_Parameters (snd a) \<and> wf_Parameters (snd b)
      \<and> sortByQuality rt (Map_get (snd a) ''q'') (Map_get (snd b) ''q'') = 0
      \<and> sortByType rt (fst a) (fst b) = 0
     \<longrightarrow> comparator rt a b
           = int (length (filter (\<lambda>k. k \<noteq> ''q'') (Map_keys (snd b))))
             - int (length (filter (\<lambda>k. k \<noteq> ''q'') (Map_keys (snd a))))
         \<and> (length (filter (\<lambda>k. k \<noteq> ''q'') (Map_keys (snd b)))
              < length (filter (\<lambda>k. k \<noteq> ''q'') (Map_keys (snd a)))
            \<longrightarrow> sort_mediaType rt [[b, a]] 0 = ([[b, a], [a, b]], 1)
              \<and> sort_mediaType rt [[a, b]] 0 = ([[a, b], [a, b]], 1)
              \<and> (\<forall>h types h' s i j. types < length h \<and> sort_mediaType rt h types = (h', s)
                    \<and> i < j \<and> j < length (h' ! s) \<and> h' ! s ! i = b \<longrightarrow> h' ! s ! j \<noteq> a)))
   \<and> sort_mediaType rt [parsedAccept] 0 = ([parsedAccept, parsedAccept], 1)
   \<and> sort_mediaType rt [rev parsedAccept] 0 = ([rev parsedAccept, parsedAccept], 1)"
proof -
  have example: "sort_mediaType rt [parsedAccept] 0 = ([parsedAccept, parsedAccept], 1)"
    by (simp add: sort_mediaType_result sort_by_parsedAccept)
  have reversed: "sort_mediaType rt [rev parsedAccept] 0 = ([rev parsedAccept, parsedAccept], 1)"
    by (simp add: sort_mediaType_result sort_by_rev_parsedAccept)
  have general: "comparator rt a b
           = int (length (filter (\<lambda>k. k \<noteq> ''q'') (Map_keys (snd b))))
             - int (length (filter (\<lambda>k. k \<noteq> ''q'') (Map_keys (snd a))))
         \<and> (length (filter (\<lambda>k. k \<noteq> ''q'') (Map_keys (snd b)))
              < length (filter (\<lambda>k. k \<noteq> ''q'') (Map_keys (snd a)))
            \<longrightarrow> sort_mediaType rt [[b, a]] 0 = ([[b, a], [a, b]], 1)
              \<and> sort_mediaType rt [[a, b]] 0 = ([[a, b], [a, b]], 1)
              \<and> (\<forall>h types h' s i j. types < length h \<and> sort_mediaType rt h types = (h', s)
                    \<and> i < j \<and> j < length (h' ! s) \<and> h' ! s ! i = b \<longrightarrow> h' ! s ! j \<noteq> a))"
    if wf: "wf_Parameters (snd a)" "wf_Parameters (snd b)"
      and tie: "sortByQuality rt (Map_get (snd a) ''q'') (Map_get (snd b) ''q'') = 0"
        "sortByType rt (fst a) (fst b) = 0"
  proof -
    have ab: "comparator rt a b = sortByParameters (snd a) (snd b)"
      using tie by (simp add: comparator_def)
    have ba: "comparator rt b a = sortByParameters (snd b) (snd a)"
      using ab comparator_swap [of rt b a] sortByParameters_swap [of "snd b" "snd a"] by simp
    have count: "comparator rt a b
           = int (length (filter (\<lambda>k. k \<noteq> ''q'') (Map_keys (snd b))))
             - int (length (filter (\<lambda>k. k \<noteq> ''q'') (Map_keys (snd a))))"
      using ab sortByParameters_count [OF wf] by simp
    have more: "sort_mediaType rt [[b, a]] 0 = ([[b, a], [a, b]], 1)
        \<and> sort_mediaType rt [[a, b]] 0 = ([[a, b], [a, b]], 1)
        \<and> (\<forall>h types h' s i j. types < length h \<and> sort_mediaType rt h types = (h', s)
              \<and> i < j \<and> j < length (h' ! s) \<and> h' ! s ! i = b \<longrightarrow> h' ! s ! j \<noteq> a)"
      if "length (filter (\<lambda>k. k \<noteq> ''q'') (Map_keys (snd b)))
            < length (filter (\<lambda>k. k \<noteq> ''q'') (Map_keys (snd a)))"
    proof -
      from that ba sortByParameters_count [OF wf(2) wf(1)] have pos: "0 < comparator rt b a"
        by simp
      from sort_mediaType_pair [OF pos] sort_mediaType_never_inverts [OF pos]
      show ?thesis by blast
    qed
    from count more show ?thesis by blast
  qed
  from example reversed general show ?thesis by blast
qed

text \<open>
  An instance: two items of quality 0.0095 and 0.009, which both score 9, the first
  with one more parameter. With the qualities 0.008 and 0.009 the scores are 8 and
  9: the quality decides and the count of parameters is not looked at.
\<close>

theorem comparator_parameter_count_witness:
  "comparator unspecified_host
     (Object 0 ''text/html'', [(''level'', Number (Finite 1)), (''q'', Number (binary64 (19 / 2000)))])
     (Object 1 ''text/html'', [(''q'', Number (binary64 (9 / 1000)))]) = - 1
   \<and> sort_mediaType unspecified_host
       [[(Object 1 ''text/html'', [(''q'', Number (binary64 (9 / 1000)))]),
         (Object 0 ''text/html'', [(''level'', Number (Finite 1)), (''q'', Number (binary64 (19 / 2000)))])]] 0
     = ([[(Object 1 ''text/html'', [(''q'', Number (binary64 (9 / 1000)))]),
          (Object 0 ''text/html'', [(''level'', Number (Finite 1)), (''q'', Number (binary64 (19 / 2000)))])],
         [(Object 0 ''text/html'', [(''level'', Number (Finite 1)), (''q'', Number (binary64 (19 / 2000)))]),
          (Object 1 ''text/html'', [(''q'', Number (binary64 (9 / 1000)))])]], 1)"
  using comparator_parameter_count [of
      "(Object 0 ''text/html'', [(''level'', Number (Finite 1)), (''q'', Number (binary64 (19 / 2000)))])"
      "(Object 1 ''text/html'', [(''q'', Number (binary64 (9 / 1000)))])" unspecified_host]
  by (simp add: wf_Parameters_def sortByQuality_def score_19_2000 score_9_1000
      sortByType_def Map_eval split_text_html)

lemma comparator_quality_decides:
  "comparator rt
     (Object 0 ''text/html'', [(''level'', Number (Finite 1)), (''q'', Number (binary64 (1 / 125)))])
     (Object 1 ''text/html'', [(''q'', Number (binary64 (9 / 1000)))]) = 1"
  by (simp add: comparator_def sortByQuality_def score_1_125 score_9_1000 Map_eval)

end
